theory Spec2Isabelle
  imports Main "HOL-Library.AList"
begin

section \<open>The reviewer balancing engine of devopshelper (pkg/autoreviewer)\<close>

text \<open>
  A shallow embedding of \<^verbatim>\<open>pkg/autoreviewer/autoreviewer.go\<close> and of the manager that
  drives it. Go strings are byte sequences and are modelled as \<^typ>\<open>string\<close>. A Go map
  \<^verbatim>\<open>map[string]bool\<close> is an association list with the operations of \<^verbatim>\<open>AList\<close>; the
  order of the list stands for the (unspecified) iteration order of the Go map. A pointer
  that the code tests against \<^verbatim>\<open>nil\<close> is an \<^typ>\<open>'a option\<close>; a pointer that the code
  dereferences without a test (title, target branch, identifiers of a pull request) is a
  plain field, so the model is about pull requests in which the platform filled them in.
\<close>

subsection \<open>Errors\<close>

text \<open>
  \<^verbatim>\<open>store.ErrNotFound\<close> is a sentinel. \<^verbatim>\<open>errors.Wrap\<close>, \<^verbatim>\<open>errors.Wrapf\<close> and
  \<^verbatim>\<open>fmt.Errorf\<close> with \<^verbatim>\<open>%w\<close> keep the cause reachable for \<^verbatim>\<open>errors.Is\<close>
  (\<open>Wrapped\<close>); \<^verbatim>\<open>fmt.Errorf\<close> with \<^verbatim>\<open>%v\<close> only keeps its text (\<open>Formatted\<close>).
  A message keeps the fixed part of its format string; the formatted arguments are left
  out.
\<close>

datatype error =
    ErrNotFound
  | ErrExternal string
  | Wrapped string error
  | Formatted string error

fun errors_Is :: "error \<Rightarrow> error \<Rightarrow> bool" where
  "errors_Is (Wrapped msg e) target = (Wrapped msg e = target \<or> errors_Is e target)"
| "errors_Is e target = (e = target)"

text \<open>A Go function can return normally, return an error, or panic.\<close>

datatype outcome = Done | Failed error | Panicked error

subsection \<open>Data\<close>

record Reviewer =
  AdoID :: string
  Alias :: string

record Team =
  Name :: string
  Members :: "string list"

record ReviewerGroup =
  Owners :: "(string \<times> bool) list"
  Teams :: "(string \<times> bool) list"

record Repository =
  AdoRepoID :: string
  ProjectName :: string
  RepoName :: string
  Enabled :: bool
  LastReconciled :: int

record PullRequest =
  PullRequestId :: int
  RepositoryId :: string
  Title :: string
  IsDraft :: "bool option"
  TargetRefName :: string
  CreatedBy_Id :: string
  CreatedBy_DisplayName :: string
  Url :: string

record Comment =
  Content :: "string option"

type_synonym Thread = "Comment list"

subsection \<open>Strings\<close>

fun hasPrefix :: "string \<Rightarrow> string \<Rightarrow> bool" where
  "hasPrefix s [] = True"
| "hasPrefix [] (p # ps) = False"
| "hasPrefix (c # cs) (p # ps) = (c = p \<and> hasPrefix cs ps)"

text \<open>\<^verbatim>\<open>strings.Contains(s, substr)\<close>: \<open>substr\<close> occurs in \<open>s\<close> as a run of bytes.\<close>

fun strings_Contains :: "string \<Rightarrow> string \<Rightarrow> bool" where
  "strings_Contains [] sub = (sub = [])"
| "strings_Contains (c # cs) sub = (hasPrefix (c # cs) sub \<or> strings_Contains cs sub)"

fun strings_Join :: "string list \<Rightarrow> string \<Rightarrow> string" where
  "strings_Join [] sep = []"
| "strings_Join [x] sep = x"
| "strings_Join (x # y # ys) sep = x @ sep @ strings_Join (y # ys) sep"

text \<open>
  \<^verbatim>\<open>strings.EqualFold\<close> belongs to the Go standard library: it compares two strings
  rune by rune under simple Unicode case folding. The model takes a second argument made
  of ASCII bytes, which is how the code calls it. An ASCII byte of the first string
  matches when the two bytes agree after mapping \<open>A\<close>..\<open>Z\<close> to \<open>a\<close>..\<open>z\<close>. The
  only runes outside ASCII that fold to an ASCII letter are U+017F (long s, bytes C5 BF),
  which folds to \<open>s\<close>, and U+212A (Kelvin sign, bytes E2 84 AA), which folds to \<open>k\<close>;
  any other byte outside ASCII in the first string makes the comparison fail.
\<close>

definition asciiLower :: "char \<Rightarrow> char" where
  "asciiLower c =
     (if 65 \<le> (of_char c :: nat) \<and> (of_char c :: nat) \<le> 90
      then char_of ((of_char c :: nat) + 32) else c)"

fun strings_EqualFold :: "string \<Rightarrow> string \<Rightarrow> bool" where
  "strings_EqualFold [] [] = True"
| "strings_EqualFold [] (t # ts) = False"
| "strings_EqualFold (c # cs) [] = False"
| "strings_EqualFold (c # cs) (t # ts) =
     (if (of_char c :: nat) < 128 then asciiLower c = asciiLower t \<and> strings_EqualFold cs ts
      else if asciiLower t = CHR ''s'' then
        (case c # cs of
           c1 # c2 # rest \<Rightarrow>
             (of_char c1 :: nat) = 197 \<and> (of_char c2 :: nat) = 191 \<and> strings_EqualFold rest ts
         | _ \<Rightarrow> False)
      else if asciiLower t = CHR ''k'' then
        (case c # cs of
           c1 # c2 # c3 # rest \<Rightarrow>
             (of_char c1 :: nat) = 226 \<and> (of_char c2 :: nat) = 132 \<and> (of_char c3 :: nat) = 170
             \<and> strings_EqualFold rest ts
         | _ \<Rightarrow> False)
      else False)"

subsection \<open>Filters\<close>

type_synonym Filter = "PullRequest \<Rightarrow> bool"

definition filterWIP :: Filter where
  "filterWIP pr = (if strings_Contains (Title pr) ''WIP'' then True else False)"

definition filterDraft :: Filter where
  "filterDraft pr = (if IsDraft pr \<noteq> None \<and> the (IsDraft pr) then True else False)"

definition filterMasterBranchOnly :: Filter where
  "filterMasterBranchOnly pr =
     (if strings_EqualFold (TargetRefName pr) ''refs/heads/master'' then False else True)"

definition defaultFilters :: "Filter list" where
  "defaultFilters = [filterWIP, filterMasterBranchOnly, filterDraft]"

definition defaultBotIdentifier :: string where
  "defaultBotIdentifier = ''b03f5f7f11d50a3a''"

subsection \<open>The external collaborators\<close>

text \<open>
  The platform client and the three stores are interfaces whose implementations are not
  part of the engine. They are parameters of the model: functions over an abstract state
  \<open>'s\<close> of the outside world. A read returns a value or an error; a call that changes
  the outside world also returns the new state. \<open>GetRequiredReviewerGroups\<close> (a method
  of the pull request) and \<open>Reconcile\<close> (a method of the reviewer, which may also
  refresh the repository record it points to) are defined outside the sources at hand
  and are parameters as well. \<open>Now\<close> reads the clock, in nanoseconds.
\<close>

record 's clients =
  GetPullRequests :: "'s \<Rightarrow> string \<Rightarrow> string \<Rightarrow> error + PullRequest list"
  GetThreads :: "'s \<Rightarrow> string \<Rightarrow> int \<Rightarrow> error + Thread list option"
  CreateThread :: "'s \<Rightarrow> string \<Rightarrow> int \<Rightarrow> string \<Rightarrow> error option \<times> 's"
  CreatePullRequestReviewer :: "'s \<Rightarrow> string \<Rightarrow> int \<Rightarrow> string \<Rightarrow> bool \<Rightarrow> error option \<times> 's"
  GetRequiredReviewerGroups :: "'s \<Rightarrow> PullRequest \<Rightarrow> error + ReviewerGroup option list"
  GetReviewerByADOID :: "'s \<Rightarrow> string \<Rightarrow> error + Reviewer"
  PopLRUReviewer :: "'s \<Rightarrow> string list \<Rightarrow> (error + Reviewer) \<times> 's"
  GetTeam :: "'s \<Rightarrow> string \<Rightarrow> error + Team"
  GetAllRepositories :: "'s \<Rightarrow> error + Repository list"
  Reconcile :: "'s \<Rightarrow> Repository \<Rightarrow> (error option \<times> Repository) \<times> 's"
  Now :: "'s \<Rightarrow> int"

text \<open>
  The world is the outside state together with the list of the calls the engine has
  issued that can change it, in the order of issue.
\<close>

datatype call =
    PopLRUReviewerCall "string list"
  | CreatePullRequestReviewerCall string int string bool
  | CreateThreadCall string int string
  | ReviewerTriggerCall "Reviewer list" "Reviewer list" string
  | ReconcileCall Repository

record 's world =
  ext :: 's
  calls :: "call list"

definition issue :: "call \<Rightarrow> 's \<Rightarrow> 's world \<Rightarrow> 's world" where
  "issue c s' w = w\<lparr>ext := s', calls := calls w @ [c]\<rparr>"

type_synonym 's ReviewerTrigger =
  "'s \<Rightarrow> Reviewer list \<Rightarrow> Reviewer list \<Rightarrow> string \<Rightarrow> error option \<times> 's"

record 's Options =
  Filters :: "Filter list option"
  ReviewerTriggers :: "'s ReviewerTrigger list option"

text \<open>
  The client and store fields of the Go struct are gathered in \<open>clients\<close>.
\<close>

record 's AutoReviewer =
  clients :: "'s clients"
  botIdentifier :: string
  Repo :: Repository
  Options :: "'s Options"

text \<open>\<^verbatim>\<open>NewAutoReviewer\<close> always returns a nil error; the model returns the reviewer.\<close>

definition NewAutoReviewer ::
  "'s clients \<Rightarrow> string \<Rightarrow> Repository \<Rightarrow> 's Options \<Rightarrow> 's AutoReviewer" where
  "NewAutoReviewer cl botId repo options =
     \<lparr>clients = cl, botIdentifier = botId, Repo = repo,
      Options = (if Filters options = None then options\<lparr>Filters := Some defaultFilters\<rparr>
                 else options)\<rparr>"

subsection \<open>shouldFilter\<close>

fun shouldFilter_loop :: "Filter list \<Rightarrow> PullRequest \<Rightarrow> bool" where
  "shouldFilter_loop [] pr = False"
| "shouldFilter_loop (f # fs) pr = (if f pr then True else shouldFilter_loop fs pr)"

definition shouldFilter :: "'s AutoReviewer \<Rightarrow> PullRequest \<Rightarrow> bool" where
  "shouldFilter a pr =
     (case Filters (Options a) of
        None \<Rightarrow> False
      | Some fs \<Rightarrow> shouldFilter_loop fs pr)"

subsection \<open>ContainsReviewBalancerComment\<close>

fun comments_loop :: "string \<Rightarrow> Comment list \<Rightarrow> bool" where
  "comments_loop botId [] = False"
| "comments_loop botId (c # cs) =
     (case Content c of
        None \<Rightarrow> comments_loop botId cs
      | Some body \<Rightarrow> if strings_Contains body botId then True else comments_loop botId cs)"

fun threads_loop :: "string \<Rightarrow> Thread list \<Rightarrow> bool" where
  "threads_loop botId [] = False"
| "threads_loop botId (t # ts) = (if comments_loop botId t then True else threads_loop botId ts)"

text \<open>The result is \<open>Inl e\<close> when the function panics with \<open>e\<close>.\<close>

definition ContainsReviewBalancerComment ::
  "'s AutoReviewer \<Rightarrow> 's \<Rightarrow> string \<Rightarrow> int \<Rightarrow> error + bool" where
  "ContainsReviewBalancerComment a s repositoryID pullRequestID =
     (case GetThreads (clients a) s repositoryID pullRequestID of
        Inl err \<Rightarrow> Inl err
      | Inr None \<Rightarrow> Inr False
      | Inr (Some threads) \<Rightarrow> Inr (threads_loop (botIdentifier a) threads))"

subsection \<open>getReviewers\<close>

text \<open>
  The body of \<^verbatim>\<open>getReviewers\<close> is split along its loops. \<open>members_loop\<close>,
  \<open>teams_loop\<close> and \<open>owners_loop\<close> are the three inner loops over one reviewer group,
  \<open>groups_loop\<close> is the outer loop, and \<open>resolvePools\<close> is the part of the body from
  the creation of the two maps to the end of the loop that removes the owners from the
  team members. It yields \<open>(requiredOwners, requiredTeamMembers)\<close>.
\<close>

fun members_loop :: "string list \<Rightarrow> (string \<times> bool) list \<Rightarrow> (string \<times> bool) list" where
  "members_loop [] requiredTeamMembers = requiredTeamMembers"
| "members_loop (member # ms) requiredTeamMembers =
     members_loop ms (AList.update member True requiredTeamMembers)"

fun teams_loop ::
  "'s clients \<Rightarrow> 's \<Rightarrow> string list \<Rightarrow> (string \<times> bool) list \<Rightarrow> error + (string \<times> bool) list" where
  "teams_loop cl s [] requiredTeamMembers = Inr requiredTeamMembers"
| "teams_loop cl s (teamName # ts) requiredTeamMembers =
     (case GetTeam cl s teamName of
        Inl err \<Rightarrow> Inl (Wrapped ''failed to get team'' err)
      | Inr team \<Rightarrow> teams_loop cl s ts (members_loop (Members team) requiredTeamMembers))"

fun owners_loop ::
  "'s clients \<Rightarrow> 's \<Rightarrow> string list \<Rightarrow> (string \<times> bool) list \<Rightarrow> (string \<times> bool) list" where
  "owners_loop cl s [] requiredOwners = requiredOwners"
| "owners_loop cl s (owner # os) requiredOwners =
     (case GetTeam cl s owner of
        Inr team \<Rightarrow> owners_loop cl s os requiredOwners
      | Inl err \<Rightarrow> owners_loop cl s os (AList.update owner True requiredOwners))"

fun groups_loop ::
  "'s clients \<Rightarrow> 's \<Rightarrow> ReviewerGroup option list \<Rightarrow>
   (string \<times> bool) list \<times> (string \<times> bool) list \<Rightarrow>
   error + (string \<times> bool) list \<times> (string \<times> bool) list" where
  "groups_loop cl s [] (requiredOwners, requiredTeamMembers) =
     Inr (requiredOwners, requiredTeamMembers)"
| "groups_loop cl s (None # gs) (requiredOwners, requiredTeamMembers) =
     groups_loop cl s gs (requiredOwners, requiredTeamMembers)"
| "groups_loop cl s (Some reviewerGroup # gs) (requiredOwners, requiredTeamMembers) =
     (case teams_loop cl s (map fst (Teams reviewerGroup)) requiredTeamMembers of
        Inl err \<Rightarrow> Inl err
      | Inr requiredTeamMembers' \<Rightarrow>
          groups_loop cl s gs
            (owners_loop cl s (map fst (Owners reviewerGroup)) requiredOwners,
             requiredTeamMembers'))"

fun delete_loop :: "string list \<Rightarrow> (string \<times> bool) list \<Rightarrow> (string \<times> bool) list" where
  "delete_loop [] requiredTeamMembers = requiredTeamMembers"
| "delete_loop (owner # os) requiredTeamMembers =
     delete_loop os (AList.delete owner requiredTeamMembers)"

definition resolvePools ::
  "'s clients \<Rightarrow> 's \<Rightarrow> Reviewer option \<Rightarrow> ReviewerGroup option list \<Rightarrow>
   error + (string \<times> bool) list \<times> (string \<times> bool) list" where
  "resolvePools cl s prCreator reviewerGroups =
     (case groups_loop cl s reviewerGroups ([], []) of
        Inl err \<Rightarrow> Inl err
      | Inr (requiredOwners, requiredTeamMembers) \<Rightarrow>
          (let (requiredTeamMembers1, requiredOwners1) =
                 (case prCreator of
                    None \<Rightarrow> (requiredTeamMembers, requiredOwners)
                  | Some c \<Rightarrow> (AList.delete (Alias c) requiredTeamMembers,
                              AList.delete (Alias c) requiredOwners))
           in Inr (requiredOwners1,
                   delete_loop (map fst requiredOwners1) requiredTeamMembers1)))"

definition getAliases :: "(string \<times> bool) list \<Rightarrow> string list" where
  "getAliases reviewers = map fst (filter snd reviewers)"

text \<open>
  A store lookup whose error is \<^verbatim>\<open>ErrNotFound\<close> leaves the pointer nil and goes on;
  any other error is returned.
\<close>

definition tolerateNotFound :: "error + 'a \<Rightarrow> error + 'a option" where
  "tolerateNotFound r =
     (case r of
        Inr x \<Rightarrow> Inr (Some x)
      | Inl err \<Rightarrow> if errors_Is err ErrNotFound then Inr None else Inl err)"

definition slot :: "Reviewer option \<Rightarrow> Reviewer list" where
  "slot r = (case r of None \<Rightarrow> [] | Some reviewer \<Rightarrow> [reviewer])"

definition selectReviewers ::
  "'s AutoReviewer \<Rightarrow> (string \<times> bool) list \<Rightarrow> (string \<times> bool) list \<Rightarrow> 's world \<Rightarrow>
   (error + Reviewer list \<times> Reviewer list) \<times> 's world" where
  "selectReviewers a requiredOwners requiredTeamMembers w =
     (let owners = getAliases requiredOwners;
          (r1, s1) = PopLRUReviewer (clients a) (ext w) owners;
          w1 = issue (PopLRUReviewerCall owners) s1 w
      in case tolerateNotFound r1 of
           Inl err \<Rightarrow> (Inl (Wrapped ''failed to get owner reviewer for owners'' err), w1)
         | Inr owner \<Rightarrow>
             (let teamMembers = getAliases requiredTeamMembers;
                  (r2, s2) = PopLRUReviewer (clients a) s1 teamMembers;
                  w2 = issue (PopLRUReviewerCall teamMembers) s2 w1
              in case tolerateNotFound r2 of
                   Inl err \<Rightarrow> (Inl (Wrapped ''failed to get team reviewer for members'' err), w2)
                 | Inr teamMember \<Rightarrow> (Inr (slot owner @ slot teamMember, []), w2)))"

definition getReviewers ::
  "'s AutoReviewer \<Rightarrow> PullRequest \<Rightarrow> 's world \<Rightarrow>
   (error + Reviewer list \<times> Reviewer list) \<times> 's world" where
  "getReviewers a pr w =
     (case GetRequiredReviewerGroups (clients a) (ext w) pr of
        Inl err \<Rightarrow> (Inl (Wrapped ''failed to get required reviewer groups for PR'' err), w)
      | Inr reviewerGroups \<Rightarrow>
          (case tolerateNotFound (GetReviewerByADOID (clients a) (ext w) (CreatedBy_Id pr)) of
             Inl err \<Rightarrow> (Inl (Wrapped ''failed to get pr creator from store'' err), w)
           | Inr prCreator \<Rightarrow>
               (case resolvePools (clients a) (ext w) prCreator reviewerGroups of
                  Inl err \<Rightarrow> (Inl err, w)
                | Inr (requiredOwners, requiredTeamMembers) \<Rightarrow>
                    selectReviewers a requiredOwners requiredTeamMembers w)))"

subsection \<open>AddReviewers and addReviewerComment\<close>

fun addReviewers_loop ::
  "'s clients \<Rightarrow> string \<Rightarrow> int \<Rightarrow> bool \<Rightarrow> Reviewer list \<Rightarrow> 's world \<Rightarrow> error option \<times> 's world" where
  "addReviewers_loop cl repoID pullRequestID isRequired [] w = (None, w)"
| "addReviewers_loop cl repoID pullRequestID isRequired (reviewer # rs) w =
     (let (res, s') = CreatePullRequestReviewer cl (ext w) repoID pullRequestID
                        (AdoID reviewer) isRequired;
          w' = issue (CreatePullRequestReviewerCall repoID pullRequestID
                        (AdoID reviewer) isRequired) s' w
      in case res of
           Some err \<Rightarrow>
             (Some (Wrapped (if isRequired then ''failed to add required reviewer''
                             else ''failed to add optional reviewer'') err), w')
         | None \<Rightarrow> addReviewers_loop cl repoID pullRequestID isRequired rs w')"

definition AddReviewers ::
  "'s AutoReviewer \<Rightarrow> int \<Rightarrow> string \<Rightarrow> Reviewer list \<Rightarrow> Reviewer list \<Rightarrow> 's world \<Rightarrow>
   error option \<times> 's world" where
  "AddReviewers a pullRequestID repoID required optional w =
     (case addReviewers_loop (clients a) repoID pullRequestID True required w of
        (Some err, w1) \<Rightarrow> (Some err, w1)
      | (None, w1) \<Rightarrow> addReviewers_loop (clients a) repoID pullRequestID False optional w1)"

definition GetReviewersAlias :: "Reviewer list \<Rightarrow> string list" where
  "GetReviewersAlias reviewers = map Alias reviewers"

definition crlf :: string where
  "crlf = [CHR 0x0D, CHR 0x0A]"

text \<open>
  The comment is the format string of \<^verbatim>\<open>addReviewerComment\<close> with its two arguments
  filled in: \<open>commentText\<close> is everything up to the second \<^verbatim>\<open>%s\<close>, which receives the
  bot identifier.
\<close>

definition commentText :: "Reviewer list \<Rightarrow> string" where
  "commentText required =
     ''Hello '' @ strings_Join (GetReviewersAlias required) '','' @ '','' @ crlf @ crlf @
     ''You are randomly selected as the **required** code reviewers of this change. '' @
     crlf @ crlf @
     ''Your responsibility is to review **each** iteration of this CR until signoff. '' @
     ''You should provide no more than 48 hour SLA for each iteration.'' @ crlf @ crlf @
     ''Thank you.'' @ crlf @ crlf @
     ''CR Balancer'' @ crlf"

definition reviewerComment :: "string \<Rightarrow> Reviewer list \<Rightarrow> string" where
  "reviewerComment botId required = commentText required @ botId"

definition addReviewerComment ::
  "'s AutoReviewer \<Rightarrow> PullRequest \<Rightarrow> Reviewer list \<Rightarrow> 's world \<Rightarrow> error option \<times> 's world" where
  "addReviewerComment a pr required w =
     (let comment = reviewerComment (botIdentifier a) required;
          repoID = RepositoryId pr;
          (res, s') = CreateThread (clients a) (ext w) repoID (PullRequestId pr) comment;
          w' = issue (CreateThreadCall repoID (PullRequestId pr) comment) s' w
      in case res of
           Some err \<Rightarrow> (Some (Wrapped ''failed to add reviewer comment'' err), w')
         | None \<Rightarrow> (None, w'))"

subsection \<open>balanceReview\<close>

text \<open>An error of a trigger is logged and the loop goes on.\<close>

fun triggers_loop ::
  "'s ReviewerTrigger list \<Rightarrow> Reviewer list \<Rightarrow> Reviewer list \<Rightarrow> string \<Rightarrow> 's world \<Rightarrow> 's world" where
  "triggers_loop [] required optional url w = w"
| "triggers_loop (rTrigger # ts) required optional url w =
     (let (res, s') = rTrigger (ext w) required optional url
      in triggers_loop ts required optional url
           (issue (ReviewerTriggerCall required optional url) s' w))"

definition balanceReview :: "'s AutoReviewer \<Rightarrow> PullRequest \<Rightarrow> 's world \<Rightarrow> outcome \<times> 's world" where
  "balanceReview a pr w =
     (case ContainsReviewBalancerComment a (ext w) (RepositoryId pr) (PullRequestId pr) of
        Inl err \<Rightarrow> (Panicked err, w)
      | Inr True \<Rightarrow> (Done, w)
      | Inr False \<Rightarrow>
          (case getReviewers a pr w of
             (Inl err, w1) \<Rightarrow> (Failed (Wrapped ''failed to get reviewers'' err), w1)
           | (Inr (requiredReviewers, optionalReviewers), w1) \<Rightarrow>
               (case AddReviewers a (PullRequestId pr) (RepositoryId pr)
                       requiredReviewers optionalReviewers w1 of
                  (Some err, w2) \<Rightarrow> (Failed (Wrapped ''failed to add reviewers to PR'' err), w2)
                | (None, w2) \<Rightarrow>
                    (case addReviewerComment a pr requiredReviewers w2 of
                       (Some err, w3) \<Rightarrow>
                         (Failed (Wrapped ''failed to add reviewer comment'' err), w3)
                     | (None, w3) \<Rightarrow>
                         (Done,
                          case ReviewerTriggers (Options a) of
                            None \<Rightarrow> w3
                          | Some ts \<Rightarrow>
                              triggers_loop ts requiredReviewers optionalReviewers
                                (Url pr) w3)))))"

subsection \<open>Run\<close>

fun Run_loop :: "'s AutoReviewer \<Rightarrow> PullRequest list \<Rightarrow> 's world \<Rightarrow> outcome \<times> 's world" where
  "Run_loop a [] w = (Done, w)"
| "Run_loop a (pr # prs) w =
     (if shouldFilter a pr then Run_loop a prs w
      else case balanceReview a pr w of
             (Done, w') \<Rightarrow> Run_loop a prs w'
           | (Failed err, w') \<Rightarrow> (Failed (Wrapped ''failed to balancer reviewers'' err), w')
           | (Panicked err, w') \<Rightarrow> (Panicked err, w'))"

definition Run :: "'s AutoReviewer \<Rightarrow> 's world \<Rightarrow> outcome \<times> 's world" where
  "Run a w =
     (case GetPullRequests (clients a) (ext w) (AdoRepoID (Repo a)) (ProjectName (Repo a)) of
        Inl err \<Rightarrow> (Failed (Formatted ''get pull requests error: '' err), w)
      | Inr pullRequests \<Rightarrow> Run_loop a pullRequests w)"

subsection \<open>The manager\<close>

definition DefaultReconcilePeriod :: int where
  "DefaultReconcilePeriod = 3600 * 1000000000 * 24 * 1"

record 's Manager =
  AutoReviewers :: "'s AutoReviewer list"

definition NewDefaultManager :: "'s clients \<Rightarrow> 's \<Rightarrow> error + 's Manager" where
  "NewDefaultManager cl s =
     (case GetAllRepositories cl s of
        Inl err \<Rightarrow> Inl err
      | Inr repos \<Rightarrow>
          (let enabledRepos = filter Enabled repos
           in Inr \<lparr>AutoReviewers =
                     map (\<lambda>repo. NewAutoReviewer cl defaultBotIdentifier repo
                                   \<lparr>Filters = None, ReviewerTriggers = None\<rparr>)
                         enabledRepos\<rparr>))"

text \<open>The reconciliation at the head of the loop body, when it is due.\<close>

definition reconcileIfDue ::
  "'s AutoReviewer \<Rightarrow> 's world \<Rightarrow> (error + 's AutoReviewer) \<times> 's world" where
  "reconcileIfDue aReviewer w =
     (if LastReconciled (Repo aReviewer) + DefaultReconcilePeriod
           < Now (clients aReviewer) (ext w)
      then (case Reconcile (clients aReviewer) (ext w) (Repo aReviewer) of
              ((Some err, repo'), s') \<Rightarrow>
                (Inl err, issue (ReconcileCall (Repo aReviewer)) s' w)
            | ((None, repo'), s') \<Rightarrow>
                (Inr (aReviewer\<lparr>Repo := repo'\<rparr>),
                 issue (ReconcileCall (Repo aReviewer)) s' w))
      else (Inr aReviewer, w))"

fun Manager_Run_loop :: "'s AutoReviewer list \<Rightarrow> 's world \<Rightarrow> outcome \<times> 's world" where
  "Manager_Run_loop [] w = (Done, w)"
| "Manager_Run_loop (aReviewer # as) w =
     (case reconcileIfDue aReviewer w of
        (Inl err, w1) \<Rightarrow> (Failed err, w1)
      | (Inr aReviewer', w1) \<Rightarrow>
          (case Run aReviewer' w1 of
             (Done, w2) \<Rightarrow> Manager_Run_loop as w2
           | (Failed err, w2) \<Rightarrow> (Failed err, w2)
           | (Panicked err, w2) \<Rightarrow> (Panicked err, w2)))"

definition Manager_Run :: "'s Manager \<Rightarrow> 's world \<Rightarrow> outcome \<times> 's world" where
  "Manager_Run m w = Manager_Run_loop (AutoReviewers m) w"

subsection \<open>A small deployment, for concrete runs\<close>

text \<open>
  One repository with one ownership declaration: owners \<open>alice\<close> and \<open>bob\<close>, team
  \<open>team-a\<close> with members \<open>carol\<close>, \<open>alice\<close> and \<open>bob\<close>. The pull request is
  written by \<open>bob\<close>. The outside state is a counter of the changes made to it. The team
  store knows \<open>team-a\<close>, fails with a transport error on \<open>alice\<close> and reports every
  other name as not found. The reviewer store pops the first candidate.
\<close>

definition ex_repo :: Repository where
  "ex_repo = \<lparr>AdoRepoID = ''repo-1'', ProjectName = ''proj'', RepoName = ''svc'',
              Enabled = True, LastReconciled = 0\<rparr>"

definition ex_pr :: PullRequest where
  "ex_pr = \<lparr>PullRequestId = 7, RepositoryId = ''repo-1'', Title = ''Add retry'',
            IsDraft = Some False, TargetRefName = ''refs/heads/master'',
            CreatedBy_Id = ''id-bob'', CreatedBy_DisplayName = ''Bob'',
            Url = ''https://example/pr/7''\<rparr>"

definition ex_pr2 :: PullRequest where
  "ex_pr2 = ex_pr\<lparr>PullRequestId := 8, Url := ''https://example/pr/8''\<rparr>"

definition ex_bob :: Reviewer where
  "ex_bob = \<lparr>AdoID = ''id-bob'', Alias = ''bob''\<rparr>"

definition ex_team :: Team where
  "ex_team = \<lparr>Name = ''team-a'', Members = [''carol'', ''alice'', ''bob'']\<rparr>"

definition ex_group :: ReviewerGroup where
  "ex_group = \<lparr>Owners = [(''alice'', True), (''bob'', True)], Teams = [(''team-a'', True)]\<rparr>"

definition ex_clients :: "nat clients" where
  "ex_clients =
     \<lparr>GetPullRequests = (\<lambda>s repo project. Inr [ex_pr, ex_pr2]),
      GetThreads = (\<lambda>s repo pr. Inr (Some [])),
      CreateThread = (\<lambda>s repo pr body. (None, Suc s)),
      CreatePullRequestReviewer = (\<lambda>s repo pr reviewer required. (None, Suc s)),
      GetRequiredReviewerGroups = (\<lambda>s pr. Inr [None, Some ex_group]),
      GetReviewerByADOID = (\<lambda>s adoId. if adoId = ''id-bob'' then Inr ex_bob else Inl ErrNotFound),
      PopLRUReviewer = (\<lambda>s candidates.
         (case candidates of
            [] \<Rightarrow> Inl ErrNotFound
          | x # xs \<Rightarrow> Inr \<lparr>AdoID = ''id-'' @ x, Alias = x\<rparr>, Suc s)),
      GetTeam = (\<lambda>s name.
         if name = ''team-a'' then Inr ex_team
         else if name = ''alice'' then Inl (ErrExternal ''connection reset'')
         else Inl ErrNotFound),
      GetAllRepositories = (\<lambda>s. Inr [ex_repo]),
      Reconcile = (\<lambda>s repo. ((None, repo), Suc s)),
      Now = (\<lambda>s. 0)\<rparr>"

definition ex_trigger :: "nat ReviewerTrigger" where
  "ex_trigger s required optional url = (Some (ErrExternal ''chat is down''), Suc s)"

definition ex_reviewer :: "nat AutoReviewer" where
  "ex_reviewer = NewAutoReviewer ex_clients defaultBotIdentifier ex_repo
                   \<lparr>Filters = None, ReviewerTriggers = Some [ex_trigger]\<rparr>"

definition ex_world :: "nat world" where
  "ex_world = \<lparr>ext = 0, calls = []\<rparr>"

text \<open>The same pull request once the discussion holds the comment of the engine.\<close>

definition ex_signed_thread :: Thread where
  "ex_signed_thread =
     [\<lparr>Content = None\<rparr>,
      \<lparr>Content = Some (reviewerComment defaultBotIdentifier [\<lparr>AdoID = ''id-alice'', Alias = ''alice''\<rparr>])\<rparr>]"

definition ex_reviewer_signed :: "nat AutoReviewer" where
  "ex_reviewer_signed =
     ex_reviewer\<lparr>clients := ex_clients\<lparr>GetThreads := (\<lambda>s repo pr. Inr (Some [[], ex_signed_thread]))\<rparr>\<rparr>"

text \<open>The platform fails to return the discussion.\<close>

definition ex_reviewer_unreadable :: "nat AutoReviewer" where
  "ex_reviewer_unreadable =
     ex_reviewer\<lparr>clients := ex_clients\<lparr>GetThreads := (\<lambda>s repo pr. Inl (ErrExternal ''timeout''))\<rparr>\<rparr>"

text \<open>The platform refuses the comment.\<close>

definition ex_reviewer_nocomment :: "nat AutoReviewer" where
  "ex_reviewer_nocomment =
     ex_reviewer\<lparr>clients := ex_clients\<lparr>CreateThread := (\<lambda>s repo pr body. (Some (ErrExternal ''forbidden''), s))\<rparr>\<rparr>"




section \<open>Properties\<close>

subsection \<open>Auxiliary facts\<close>

lemma shouldFilter_loop_iff: "shouldFilter_loop fs pr \<longleftrightarrow> (\<exists>f\<in>set fs. f pr)"
  by (induction fs) auto

lemma EqualFold_ascii:
  "\<forall>c\<in>set s. (of_char c :: nat) < 128 \<Longrightarrow>
   strings_EqualFold s t \<longleftrightarrow> map asciiLower s = map asciiLower t"
  by (induction s t rule: strings_EqualFold.induct) auto

lemma hasPrefix_iff: "hasPrefix s p \<longleftrightarrow> (\<exists>suf. s = p @ suf)"
  by (induction s p rule: hasPrefix.induct) auto

lemma strings_Contains_iff: "strings_Contains s sub \<longleftrightarrow> (\<exists>pre suf. s = pre @ sub @ suf)"
proof (induction s)
  case Nil
  then show ?case by auto
next
  case (Cons c cs)
  show ?case
  proof
    assume "strings_Contains (c # cs) sub"
    then consider "hasPrefix (c # cs) sub" | "strings_Contains cs sub" by auto
    then show "\<exists>pre suf. c # cs = pre @ sub @ suf"
    proof cases
      case 1
      then obtain suf where "c # cs = sub @ suf" by (auto simp: hasPrefix_iff)
      then have "c # cs = [] @ sub @ suf" by simp
      then show ?thesis by blast
    next
      case 2
      then obtain pre suf where "cs = pre @ sub @ suf" using Cons.IH by auto
      then have "c # cs = (c # pre) @ sub @ suf" by simp
      then show ?thesis by blast
    qed
  next
    assume "\<exists>pre suf. c # cs = pre @ sub @ suf"
    then obtain pre suf where eq: "c # cs = pre @ sub @ suf" by auto
    show "strings_Contains (c # cs) sub"
    proof (cases pre)
      case Nil
      then have "hasPrefix (c # cs) sub" using eq by (auto simp: hasPrefix_iff)
      then show ?thesis by simp
    next
      case (Cons p ps)
      then have "cs = ps @ sub @ suf" using eq by simp
      then have "strings_Contains cs sub" using Cons.IH by auto
      then show ?thesis by simp
    qed
  qed
qed

lemma comments_loop_iff:
  "comments_loop botId cs \<longleftrightarrow>
   (\<exists>c\<in>set cs. \<exists>body. Content c = Some body \<and> strings_Contains body botId)"
  by (induction cs) (auto split: option.splits)

lemma threads_loop_iff:
  "threads_loop botId ts \<longleftrightarrow>
   (\<exists>t\<in>set ts. \<exists>c\<in>set t. \<exists>body. Content c = Some body \<and> strings_Contains body botId)"
  by (induction ts) (auto simp: comments_loop_iff)

lemma keys_delete: "fst ` set (AList.delete k m) = fst ` set m - {k}"
  by (induction m) auto

lemma keys_delete_loop: "fst ` set (delete_loop os m) = fst ` set m - set os"
  by (induction os arbitrary: m) (auto simp: keys_delete)

lemma keys_owners_loop:
  "fst ` set (owners_loop cl s os ro) = fst ` set ro \<union> {owner \<in> set os. isl (GetTeam cl s owner)}"
  by (induction os arbitrary: ro) (auto simp: dom_update split: sum.splits)

lemma Run_loop_append:
  "Run_loop a xs w0 = (Done, w) \<Longrightarrow> Run_loop a (xs @ ys) w0 = Run_loop a ys w"
  by (induction xs arbitrary: w0) (auto split: if_splits prod.splits outcome.splits)

lemma Manager_Run_loop_append:
  "Manager_Run_loop xs w0 = (Done, w) \<Longrightarrow> Manager_Run_loop (xs @ ys) w0 = Manager_Run_loop ys w"
  by (induction xs arbitrary: w0) (auto split: if_splits prod.splits outcome.splits sum.splits)


lemma update_all_True:
  "\<forall>kv\<in>set m. snd kv \<Longrightarrow> \<forall>kv\<in>set (AList.update k True m). snd kv"
  by (induction m) auto

lemma owners_loop_all_True:
  "\<forall>kv\<in>set ro. snd kv \<Longrightarrow> \<forall>kv\<in>set (owners_loop cl s os ro). snd kv"
proof (induction os arbitrary: ro)
  case Nil
  then show ?case by simp
next
  case (Cons owner os)
  show ?case
  proof (cases "GetTeam cl s owner")
    case (Inl err)
    have "\<forall>kv\<in>set (AList.update owner True ro). snd kv"
      using Cons.prems by (rule update_all_True)
    then show ?thesis using Inl Cons.IH by simp
  next
    case (Inr team)
    then show ?thesis using Cons by simp
  qed
qed

lemma groups_loop_owners:
  "groups_loop cl s gs (ro0, rtm0) = Inr (ro, rtm) \<Longrightarrow>
   fst ` set ro = fst ` set ro0 \<union>
     {owner. \<exists>g. Some g \<in> set gs \<and> owner \<in> fst ` set (Owners g) \<and> isl (GetTeam cl s owner)}"
proof (induction gs arbitrary: ro0 rtm0)
  case Nil
  then show ?case by simp
next
  case (Cons x gs)
  show ?case
  proof (cases x)
    case None
    then show ?thesis using Cons by auto
  next
    case (Some g)
    from Cons.prems Some obtain rtm1 where
      t: "teams_loop cl s (map fst (Teams g)) rtm0 = Inr rtm1" and
      r: "groups_loop cl s gs (owners_loop cl s (map fst (Owners g)) ro0, rtm1) = Inr (ro, rtm)"
      by (auto split: sum.splits)
    from Cons.IH[OF r] show ?thesis
      using Some by (auto simp: keys_owners_loop)
  qed
qed

lemma groups_loop_all_True:
  "groups_loop cl s gs (ro0, rtm0) = Inr (ro, rtm) \<Longrightarrow> \<forall>kv\<in>set ro0. snd kv \<Longrightarrow>
   \<forall>kv\<in>set ro. snd kv"
proof (induction gs arbitrary: ro0 rtm0)
  case Nil
  then show ?case by simp
next
  case (Cons x gs)
  show ?case
  proof (cases x)
    case None
    then show ?thesis using Cons by auto
  next
    case (Some g)
    from Cons.prems Some obtain rtm1 where
      r: "groups_loop cl s gs (owners_loop cl s (map fst (Owners g)) ro0, rtm1) = Inr (ro, rtm)"
      by (auto split: sum.splits)
    have "\<forall>kv\<in>set (owners_loop cl s (map fst (Owners g)) ro0). snd kv"
      using Cons.prems(2) by (rule owners_loop_all_True)
    with Cons.IH[OF r] show ?thesis by simp
  qed
qed

lemma teams_loop_ok:
  "\<forall>t\<in>set ts. \<not> isl (GetTeam cl s t) \<Longrightarrow> \<exists>rtm'. teams_loop cl s ts rtm = Inr rtm'"
  by (induction ts arbitrary: rtm) (auto split: sum.splits)

lemma groups_loop_ok:
  "\<forall>g. Some g \<in> set gs \<longrightarrow> (\<forall>t\<in>fst ` set (Teams g). \<not> isl (GetTeam cl s t)) \<Longrightarrow>
   \<exists>ro rtm. groups_loop cl s gs (ro0, rtm0) = Inr (ro, rtm)"
proof (induction gs arbitrary: ro0 rtm0)
  case Nil
  then show ?case by simp
next
  case (Cons x gs)
  show ?case
  proof (cases x)
    case None
    then show ?thesis using Cons by auto
  next
    case (Some g)
    have "\<forall>t\<in>set (map fst (Teams g)). \<not> isl (GetTeam cl s t)"
      using Cons.prems Some by auto
    then have "\<exists>rtm'. teams_loop cl s (map fst (Teams g)) rtm0 = Inr rtm'"
      by (rule teams_loop_ok)
    then obtain rtm1 where t: "teams_loop cl s (map fst (Teams g)) rtm0 = Inr rtm1" ..
    have "\<exists>ro rtm. groups_loop cl s gs (owners_loop cl s (map fst (Owners g)) ro0, rtm1)
            = Inr (ro, rtm)"
      using Cons.IH Cons.prems by auto
    then show ?thesis using Some t by simp
  qed
qed

lemma owners_loop_filter:
  "GetTeam cl s owner = Inr team \<Longrightarrow>
   owners_loop cl s (map fst (filter (\<lambda>kv. fst kv \<noteq> owner) xs)) ro
     = owners_loop cl s (map fst xs) ro"
  by (induction xs arbitrary: ro) (auto split: sum.splits)

lemma groups_loop_filter:
  "GetTeam cl s owner = Inr team \<Longrightarrow>
   groups_loop cl s
     (map (map_option (\<lambda>g. g\<lparr>Owners := filter (\<lambda>kv. fst kv \<noteq> owner) (Owners g)\<rparr>)) gs) (ro0, rtm0)
     = groups_loop cl s gs (ro0, rtm0)"
proof (induction gs arbitrary: ro0 rtm0)
  case Nil
  then show ?case by simp
next
  case (Cons x gs)
  show ?case
  proof (cases x)
    case None
    then show ?thesis using Cons by simp
  next
    case (Some g)
    then show ?thesis using Cons by (simp add: owners_loop_filter split: sum.splits)
  qed
qed


text \<open>
  C4. After resolution no alias is a key of both \<open>requiredOwners\<close> and
  \<open>requiredTeamMembers\<close>.
\<close>

theorem pools_disjoint:
  assumes "resolvePools cl s prCreator reviewerGroups = Inr (requiredOwners, requiredTeamMembers)"
  shows "fst ` set requiredOwners \<inter> fst ` set requiredTeamMembers = {}"
proof -
  from assms obtain m where
    "requiredTeamMembers = delete_loop (map fst requiredOwners) m"
    unfolding resolvePools_def by (auto split: sum.splits option.splits)
  then show ?thesis by (auto simp: keys_delete_loop)
qed

text \<open>
  C3, as the code has it. A nominal owner that is the name of a team in the team store is
  skipped: the resolution gives the same result as for the groups without that entry,
  so the members of the team do not enter a pool on its account, and the name is not a
  key of \<open>requiredOwners\<close>.
\<close>

theorem team_named_owner_skipped:
  assumes "GetTeam cl s owner = Inr team"
  shows "resolvePools cl s prCreator
           (map (map_option (\<lambda>g. g\<lparr>Owners := filter (\<lambda>kv. fst kv \<noteq> owner) (Owners g)\<rparr>))
              reviewerGroups)
           = resolvePools cl s prCreator reviewerGroups
       \<and> (\<forall>requiredOwners requiredTeamMembers.
            resolvePools cl s prCreator reviewerGroups = Inr (requiredOwners, requiredTeamMembers)
            \<longrightarrow> owner \<notin> fst ` set requiredOwners)"
proof
  show "resolvePools cl s prCreator
           (map (map_option (\<lambda>g. g\<lparr>Owners := filter (\<lambda>kv. fst kv \<noteq> owner) (Owners g)\<rparr>))
              reviewerGroups)
           = resolvePools cl s prCreator reviewerGroups"
    unfolding resolvePools_def by (simp add: groups_loop_filter[OF assms])
next
  show "\<forall>requiredOwners requiredTeamMembers.
            resolvePools cl s prCreator reviewerGroups = Inr (requiredOwners, requiredTeamMembers)
            \<longrightarrow> owner \<notin> fst ` set requiredOwners"
  proof (intro allI impI)
    fix requiredOwners requiredTeamMembers
    assume r: "resolvePools cl s prCreator reviewerGroups = Inr (requiredOwners, requiredTeamMembers)"
    then obtain ro rtm where
      g: "groups_loop cl s reviewerGroups ([], []) = Inr (ro, rtm)" and
      sub: "fst ` set requiredOwners \<subseteq> fst ` set ro"
      unfolding resolvePools_def
      by (auto simp: keys_delete split: sum.splits option.splits)
    have "owner \<notin> fst ` set ro"
      using groups_loop_owners[OF g] assms by auto
    then show "owner \<notin> fst ` set requiredOwners" using sub by auto
  qed
qed


lemma getAliases_all_True: "\<forall>kv\<in>set m. snd kv \<Longrightarrow> set (getAliases m) = fst ` set m"
  by (induction m) (auto simp: getAliases_def)

lemma delete_all_True: "\<forall>kv\<in>set m. snd kv \<Longrightarrow> \<forall>kv\<in>set (AList.delete k m). snd kv"
  by (induction m) auto

lemma selectReviewers_result:
  assumes "selectReviewers a ro rtm w = (Inr (required, optional), w')"
  shows "optional = [] \<and>
         required =
           (case fst (PopLRUReviewer (clients a) (ext w) (getAliases ro)) of
              Inr r \<Rightarrow> [r] | Inl e \<Rightarrow> []) @
           (case fst (PopLRUReviewer (clients a)
                        (snd (PopLRUReviewer (clients a) (ext w) (getAliases ro)))
                        (getAliases rtm)) of
              Inr r \<Rightarrow> [r] | Inl e \<Rightarrow> [])"
  using assms
  by (auto simp: selectReviewers_def Let_def tolerateNotFound_def slot_def
           split: prod.splits sum.splits if_splits option.splits)

text \<open>
  C1. When the discussion of a pull request holds a comment whose body includes the bot
  identifier, \<open>balanceReview\<close> returns without an error and leaves the world as it was:
  the outside state is the same and no call has been issued, so no reviewer is popped or
  added, no comment is posted and no trigger fires.
\<close>

theorem already_balanced_no_mutation:
  assumes "GetThreads (clients a) (ext w) (RepositoryId pr) (PullRequestId pr) = Inr (Some threads)"
    and "thread \<in> set threads" and "comment \<in> set thread"
    and "Content comment = Some (pre @ botIdentifier a @ suf)"
  shows "balanceReview a pr w = (Done, w)"
proof -
  have "strings_Contains (pre @ botIdentifier a @ suf) (botIdentifier a)"
    unfolding strings_Contains_iff by blast
  then have "threads_loop (botIdentifier a) threads"
    unfolding threads_loop_iff using assms(2,3,4) by blast
  then have "ContainsReviewBalancerComment a (ext w) (RepositoryId pr) (PullRequestId pr) = Inr True"
    by (simp add: ContainsReviewBalancerComment_def assms(1))
  then show ?thesis by (simp add: balanceReview_def)
qed

text \<open>
  C5. When the read of the discussion fails, \<open>balanceReview\<close> does not return normally:
  it panics with the error of the read, which the caller cannot ignore. The world is as
  it was, so nothing has been resolved, popped, added or posted for the pull request;
  the loop of \<open>Run\<close> is left with the same panic.
\<close>

theorem unreadable_discussion_fails_closed:
  assumes "GetThreads (clients a) (ext w) (RepositoryId pr) (PullRequestId pr) = Inl err"
  shows "balanceReview a pr w = (Panicked err, w)
       \<and> (\<not> shouldFilter a pr \<longrightarrow> Run_loop a (pr # later) w = (Panicked err, w))"
proof -
  have "ContainsReviewBalancerComment a (ext w) (RepositoryId pr) (PullRequestId pr) = Inl err"
    by (simp add: ContainsReviewBalancerComment_def assms)
  then have "balanceReview a pr w = (Panicked err, w)"
    by (simp add: balanceReview_def)
  then show ?thesis by simp
qed

text \<open>
  C6. Whenever \<open>getReviewers\<close> succeeds, the optional list is empty and the required
  list is the reviewer popped from the owners (if the store returned one) followed by
  the reviewer popped from the team members (if the store returned one); the second pop
  runs on the state left by the first.
\<close>

theorem selection_output:
  assumes "getReviewers a pr w = (Inr (requiredReviewers, optionalReviewers), w')"
  shows "optionalReviewers = [] \<and>
    (\<exists>reviewerGroups prCreator requiredOwners requiredTeamMembers.
       GetRequiredReviewerGroups (clients a) (ext w) pr = Inr reviewerGroups \<and>
       tolerateNotFound (GetReviewerByADOID (clients a) (ext w) (CreatedBy_Id pr)) = Inr prCreator \<and>
       resolvePools (clients a) (ext w) prCreator reviewerGroups
         = Inr (requiredOwners, requiredTeamMembers) \<and>
       requiredReviewers =
         (case fst (PopLRUReviewer (clients a) (ext w) (getAliases requiredOwners)) of
            Inr r \<Rightarrow> [r] | Inl e \<Rightarrow> []) @
         (case fst (PopLRUReviewer (clients a)
                      (snd (PopLRUReviewer (clients a) (ext w) (getAliases requiredOwners)))
                      (getAliases requiredTeamMembers)) of
            Inr r \<Rightarrow> [r] | Inl e \<Rightarrow> []))"
proof -
  from assms obtain reviewerGroups prCreator ro rtm where
    g: "GetRequiredReviewerGroups (clients a) (ext w) pr = Inr reviewerGroups" and
    c: "tolerateNotFound (GetReviewerByADOID (clients a) (ext w) (CreatedBy_Id pr)) = Inr prCreator" and
    r: "resolvePools (clients a) (ext w) prCreator reviewerGroups = Inr (ro, rtm)" and
    sel: "selectReviewers a ro rtm w = (Inr (requiredReviewers, optionalReviewers), w')"
    unfolding getReviewers_def by (auto split: sum.splits prod.splits)
  from selectReviewers_result[OF sel] g c r show ?thesis by blast
qed

text \<open>
  C9. A nominal owner on which the lookup in the team store fails, with whatever error,
  is admitted as an individual owner, and the error is not returned: when every team
  listed in the groups resolves, the resolution succeeds and the owner is among the
  candidates of the owner slot (unless the owner is the author of the pull request).
\<close>

theorem owner_lookup_error_swallowed:
  assumes g: "Some g \<in> set reviewerGroups" and o: "owner \<in> fst ` set (Owners g)"
    and e: "GetTeam cl s owner = Inl err"
    and teams: "\<forall>g'. Some g' \<in> set reviewerGroups \<longrightarrow>
                  (\<forall>t\<in>fst ` set (Teams g'). \<not> isl (GetTeam cl s t))"
    and creator: "\<forall>c. prCreator = Some c \<longrightarrow> Alias c \<noteq> owner"
  shows "\<exists>requiredOwners requiredTeamMembers.
           resolvePools cl s prCreator reviewerGroups = Inr (requiredOwners, requiredTeamMembers)
         \<and> owner \<in> set (getAliases requiredOwners)"
proof -
  from groups_loop_ok[OF teams] obtain ro rtm where
    gl: "groups_loop cl s reviewerGroups ([], []) = Inr (ro, rtm)" by blast
  have inro: "owner \<in> fst ` set ro"
    using groups_loop_owners[OF gl] g o e by auto
  have allT: "\<forall>kv\<in>set ro. snd kv"
    using groups_loop_all_True[OF gl] by simp
  show ?thesis
  proof (cases prCreator)
    case None
    have "resolvePools cl s prCreator reviewerGroups = Inr (ro, delete_loop (map fst ro) rtm)"
      by (simp add: resolvePools_def gl None)
    moreover have "owner \<in> set (getAliases ro)"
      using inro allT by (simp add: getAliases_all_True)
    ultimately show ?thesis by blast
  next
    case (Some c)
    let ?ro = "AList.delete (Alias c) ro"
    have "resolvePools cl s prCreator reviewerGroups
            = Inr (?ro, delete_loop (map fst ?ro) (AList.delete (Alias c) rtm))"
      by (simp add: resolvePools_def gl Some)
    moreover have "owner \<in> fst ` set ?ro"
      using inro creator Some by (simp add: keys_delete)
    then have "owner \<in> set (getAliases ?ro)"
      using delete_all_True[OF allT] by (simp add: getAliases_all_True)
    ultimately show ?thesis by blast
  qed
qed

text \<open>
  C10. When \<open>balanceReview\<close> returns an error for a pull request, \<open>Run\<close> returns that
  error, wrapped, with the world as the failing call left it, whatever pull requests come
  later; and \<open>Manager.Run\<close> returns the same error and the same world, whatever
  reviewers of other repositories come later.
\<close>

theorem error_stops_repository_and_cycle:
  assumes cyc: "Manager_Run_loop earlierReviewers w0 = (Done, w)"
    and rec: "reconcileIfDue aReviewer w = (Inr aReviewer', w1)"
    and prs: "GetPullRequests (clients aReviewer') (ext w1) (AdoRepoID (Repo aReviewer'))
                (ProjectName (Repo aReviewer')) = Inr (earlier @ pr # later)"
    and before: "Run_loop aReviewer' earlier w1 = (Done, w2)"
    and nf: "\<not> shouldFilter aReviewer' pr"
    and fail: "balanceReview aReviewer' pr w2 = (Failed err, w3)"
  shows "Run aReviewer' w1 = (Failed (Wrapped ''failed to balancer reviewers'' err), w3)
       \<and> Manager_Run \<lparr>AutoReviewers = earlierReviewers @ aReviewer # laterReviewers\<rparr> w0
           = (Failed (Wrapped ''failed to balancer reviewers'' err), w3)"
proof -
  have "Run_loop aReviewer' (pr # later) w2
          = (Failed (Wrapped ''failed to balancer reviewers'' err), w3)"
    using nf fail by simp
  then have "Run_loop aReviewer' (earlier @ pr # later) w1
          = (Failed (Wrapped ''failed to balancer reviewers'' err), w3)"
    using Run_loop_append[OF before] by simp
  then have run: "Run aReviewer' w1 = (Failed (Wrapped ''failed to balancer reviewers'' err), w3)"
    by (simp add: Run_def prs)
  then have "Manager_Run_loop (aReviewer # laterReviewers) w
          = (Failed (Wrapped ''failed to balancer reviewers'' err), w3)"
    by (simp add: rec)
  then have "Manager_Run_loop (earlierReviewers @ aReviewer # laterReviewers) w0
          = (Failed (Wrapped ''failed to balancer reviewers'' err), w3)"
    using Manager_Run_loop_append[OF cyc] by simp
  with run show ?thesis by (simp add: Manager_Run_def)
qed

text \<open>
  C7. A reviewer built by \<open>NewAutoReviewer\<close> excludes a pull request exactly when some
  filter of its list returns true, where the list is the one supplied, or the default
  list when none is supplied (a nil slice); with an empty list supplied no pull request
  is excluded.
\<close>

theorem filters_any:
  "(shouldFilter (NewAutoReviewer cl botId repo opts) pr \<longleftrightarrow>
      (\<exists>f \<in> set (case Filters opts of None \<Rightarrow> defaultFilters | Some fs \<Rightarrow> fs). f pr))
   \<and> (Filters opts = Some [] \<longrightarrow> \<not> shouldFilter (NewAutoReviewer cl botId repo opts) pr)"
  by (auto simp: shouldFilter_def NewAutoReviewer_def shouldFilter_loop_iff split: option.splits)

text \<open>
  C8. Under the default filters a pull request whose target branch is not
  \<^verbatim>\<open>refs/heads/master\<close> up to case is excluded, and the branch filter does not exclude
  a pull request whose target branch is \<^verbatim>\<open>refs/heads/master\<close> up to case. For a
  target branch made of ASCII bytes, up to case means: equal after mapping upper case
  letters to lower case.
\<close>

theorem master_branch_only:
  "(\<not> strings_EqualFold (TargetRefName pr) ''refs/heads/master'' \<longrightarrow>
      shouldFilter (NewAutoReviewer cl botId repo (opts\<lparr>Filters := None\<rparr>)) pr)
   \<and> (strings_EqualFold (TargetRefName pr) ''refs/heads/master'' \<longrightarrow> \<not> filterMasterBranchOnly pr)
   \<and> ((\<forall>c\<in>set (TargetRefName pr). (of_char c :: nat) < 128) \<longrightarrow>
        (filterMasterBranchOnly pr \<longleftrightarrow>
           map asciiLower (TargetRefName pr) \<noteq> map asciiLower ''refs/heads/master''))"
  by (simp add: shouldFilter_def NewAutoReviewer_def defaultFilters_def filterMasterBranchOnly_def
       EqualFold_ascii)


text \<open>The signed discussion of the small deployment.\<close>

theorem already_balanced_no_mutation_witness:
  "balanceReview ex_reviewer_signed ex_pr ex_world = (Done, ex_world)"
proof -
  let ?c = "\<lparr>Content = Some (reviewerComment defaultBotIdentifier
                               [\<lparr>AdoID = ''id-alice'', Alias = ''alice''\<rparr>])\<rparr>"
  have h1: "GetThreads (clients ex_reviewer_signed) (ext ex_world) (RepositoryId ex_pr)
              (PullRequestId ex_pr) = Inr (Some [[], ex_signed_thread])"
    by (simp add: ex_reviewer_signed_def)
  have h2: "ex_signed_thread \<in> set [[], ex_signed_thread]" by simp
  have h3: "?c \<in> set ex_signed_thread" by (simp add: ex_signed_thread_def)
  have h4: "Content ?c = Some (commentText [\<lparr>AdoID = ''id-alice'', Alias = ''alice''\<rparr>]
                               @ botIdentifier ex_reviewer_signed @ [])"
    by (simp add: reviewerComment_def ex_reviewer_signed_def ex_reviewer_def NewAutoReviewer_def)
  show ?thesis by (rule already_balanced_no_mutation[OF h1 h2 h3 h4])
qed



text \<open>The small deployment with an author unknown to the store: \<open>alice\<close> and \<open>bob\<close> are owners and team members.\<close>

theorem pools_disjoint_witness:
  "resolvePools ex_clients 0 None [None, Some ex_group]
     = Inr ([(''alice'', True), (''bob'', True)], [(''carol'', True)])
   \<and> fst ` set [(''alice'', True), (''bob'', True)] \<inter> fst ` set [(''carol'', True)] = {}"
proof -
  have h: "resolvePools ex_clients 0 None [None, Some ex_group]
             = Inr ([(''alice'', True), (''bob'', True)], [(''carol'', True)])"
    by (simp add: resolvePools_def ex_clients_def ex_group_def ex_team_def)
  from pools_disjoint[OF h] h show ?thesis by simp
qed

text \<open>
  C3, as stated, fails: \<open>team-a\<close> is in the team store with three members, and a group
  that names it as an owner resolves to two empty pools.
\<close>

theorem team_named_owner_counterexample:
  "GetTeam ex_clients 0 ''team-a'' = Inr ex_team
   \<and> Members ex_team = [''carol'', ''alice'', ''bob'']
   \<and> resolvePools ex_clients 0 None [Some \<lparr>Owners = [(''team-a'', True)], Teams = []\<rparr>]
       = Inr ([], [])"
  by (simp add: resolvePools_def ex_clients_def ex_team_def)

text \<open>A group that names \<open>team-a\<close> and \<open>bob\<close> as owners.\<close>

theorem team_named_owner_skipped_witness:
  "resolvePools ex_clients 0 None [Some \<lparr>Owners = [(''bob'', True)], Teams = []\<rparr>]
     = resolvePools ex_clients 0 None
         [Some \<lparr>Owners = [(''team-a'', True), (''bob'', True)], Teams = []\<rparr>]
   \<and> resolvePools ex_clients 0 None
         [Some \<lparr>Owners = [(''team-a'', True), (''bob'', True)], Teams = []\<rparr>]
       = Inr ([(''bob'', True)], [])
   \<and> ''team-a'' \<notin> fst ` set [(''bob'', True)]"
proof -
  have h: "GetTeam ex_clients 0 ''team-a'' = Inr ex_team"
    by (simp add: ex_clients_def)
  have r: "resolvePools ex_clients 0 None
             [Some \<lparr>Owners = [(''team-a'', True), (''bob'', True)], Teams = []\<rparr>]
           = Inr ([(''bob'', True)], [])"
    by (simp add: resolvePools_def ex_clients_def)
  from team_named_owner_skipped[OF h, of None
         "[Some \<lparr>Owners = [(''team-a'', True), (''bob'', True)], Teams = []\<rparr>]"] r
  show ?thesis by simp
qed

text \<open>The platform times out on the discussion.\<close>

theorem unreadable_discussion_fails_closed_witness:
  "balanceReview ex_reviewer_unreadable ex_pr ex_world = (Panicked (ErrExternal ''timeout''), ex_world)
   \<and> Run_loop ex_reviewer_unreadable [ex_pr, ex_pr2] ex_world
       = (Panicked (ErrExternal ''timeout''), ex_world)"
proof -
  have h: "GetThreads (clients ex_reviewer_unreadable) (ext ex_world) (RepositoryId ex_pr)
             (PullRequestId ex_pr) = Inl (ErrExternal ''timeout'')"
    by (simp add: ex_reviewer_unreadable_def)
  have nf: "\<not> shouldFilter ex_reviewer_unreadable ex_pr"
    by code_simp
  from unreadable_discussion_fails_closed[OF h, of "[ex_pr2]"] nf show ?thesis by simp
qed

text \<open>The small deployment: \<open>alice\<close> fills the owner slot and \<open>carol\<close> the team slot.\<close>

theorem selection_output_witness:
  "fst (getReviewers ex_reviewer ex_pr ex_world)
     = Inr ([\<lparr>AdoID = ''id-alice'', Alias = ''alice''\<rparr>, \<lparr>AdoID = ''id-carol'', Alias = ''carol''\<rparr>], [])"
proof -
  have h1: "fst (getReviewers ex_reviewer ex_pr ex_world)
            = Inr ([\<lparr>AdoID = ''id-alice'', Alias = ''alice''\<rparr>,
                    \<lparr>AdoID = ''id-carol'', Alias = ''carol''\<rparr>], [])"
    by code_simp
  then have h: "getReviewers ex_reviewer ex_pr ex_world
             = (Inr ([\<lparr>AdoID = ''id-alice'', Alias = ''alice''\<rparr>,
                      \<lparr>AdoID = ''id-carol'', Alias = ''carol''\<rparr>], []),
                snd (getReviewers ex_reviewer ex_pr ex_world))"
    by (simp add: prod_eq_iff)
  from selection_output[OF h] have "([] :: Reviewer list) = []" by (rule conjunct1)
  with h1 show ?thesis by simp
qed

text \<open>A draft is excluded by a custom list that holds the draft filter, and passes the empty list.\<close>

theorem filters_any_witness:
  "shouldFilter (NewAutoReviewer ex_clients defaultBotIdentifier ex_repo
                   \<lparr>Filters = Some [filterWIP, filterDraft], ReviewerTriggers = None\<rparr>)
                (ex_pr\<lparr>IsDraft := Some True\<rparr>)
   \<and> \<not> shouldFilter (NewAutoReviewer ex_clients defaultBotIdentifier ex_repo
                   \<lparr>Filters = Some [], ReviewerTriggers = None\<rparr>)
                (ex_pr\<lparr>IsDraft := Some True\<rparr>)"
  using filters_any[where cl = ex_clients and botId = defaultBotIdentifier and repo = ex_repo
          and opts = "\<lparr>Filters = Some [filterWIP, filterDraft], ReviewerTriggers = None\<rparr>"
          and pr = "ex_pr\<lparr>IsDraft := Some True\<rparr>"]
        filters_any[where cl = ex_clients and botId = defaultBotIdentifier and repo = ex_repo
          and opts = "\<lparr>Filters = Some [], ReviewerTriggers = None\<rparr>"
          and pr = "ex_pr\<lparr>IsDraft := Some True\<rparr>"]
  by (simp add: filterDraft_def)

text \<open>A release branch is excluded; the main branch in another case is not.\<close>

theorem master_branch_only_witness:
  "shouldFilter (NewAutoReviewer ex_clients defaultBotIdentifier ex_repo
                   \<lparr>Filters = None, ReviewerTriggers = None\<rparr>)
                (ex_pr\<lparr>TargetRefName := ''refs/heads/release''\<rparr>)
   \<and> \<not> filterMasterBranchOnly (ex_pr\<lparr>TargetRefName := ''Refs/Heads/MASTER''\<rparr>)"
proof -
  have a: "\<not> strings_EqualFold (TargetRefName (ex_pr\<lparr>TargetRefName := ''refs/heads/release''\<rparr>))
             ''refs/heads/master''"
    by code_simp
  have b: "strings_EqualFold (TargetRefName (ex_pr\<lparr>TargetRefName := ''Refs/Heads/MASTER''\<rparr>))
             ''refs/heads/master''"
    by code_simp
  from master_branch_only[where pr = "ex_pr\<lparr>TargetRefName := ''refs/heads/release''\<rparr>"
         and cl = ex_clients and botId = defaultBotIdentifier and repo = ex_repo
         and opts = "\<lparr>Filters = None, ReviewerTriggers = None\<rparr>"]
       master_branch_only[where pr = "ex_pr\<lparr>TargetRefName := ''Refs/Heads/MASTER''\<rparr>"
         and cl = ex_clients and botId = defaultBotIdentifier and repo = ex_repo
         and opts = "\<lparr>Filters = None, ReviewerTriggers = None\<rparr>"]
       a b
  show ?thesis by simp
qed

text \<open>The team store fails with a transport error on \<open>alice\<close>.\<close>

theorem owner_lookup_error_swallowed_witness:
  "GetTeam ex_clients 0 ''alice'' = Inl (ErrExternal ''connection reset'')
   \<and> (\<exists>requiredOwners requiredTeamMembers.
        resolvePools ex_clients 0 (Some ex_bob) [None, Some ex_group]
          = Inr (requiredOwners, requiredTeamMembers)
        \<and> ''alice'' \<in> set (getAliases requiredOwners))"
proof -
  have g: "Some ex_group \<in> set [None, Some ex_group]" by simp
  have o: "''alice'' \<in> fst ` set (Owners ex_group)" by (simp add: ex_group_def)
  have e: "GetTeam ex_clients 0 ''alice'' = Inl (ErrExternal ''connection reset'')"
    by (simp add: ex_clients_def)
  have t: "\<forall>g'. Some g' \<in> set [None, Some ex_group] \<longrightarrow>
             (\<forall>t\<in>fst ` set (Teams g'). \<not> isl (GetTeam ex_clients 0 t))"
    by (simp add: ex_group_def ex_clients_def)
  have c: "\<forall>c. Some ex_bob = Some c \<longrightarrow> Alias c \<noteq> ''alice''"
    by (simp add: ex_bob_def)
  from owner_lookup_error_swallowed[OF g o e t c] e show ?thesis by simp
qed

text \<open>The platform refuses the comment on the first pull request of the first repository.\<close>

theorem error_stops_repository_and_cycle_witness:
  "Manager_Run \<lparr>AutoReviewers = [ex_reviewer_nocomment, ex_reviewer]\<rparr> ex_world
     = (Failed (Wrapped ''failed to balancer reviewers''
                 (Wrapped ''failed to add reviewer comment''
                   (Wrapped ''failed to add reviewer comment'' (ErrExternal ''forbidden'')))),
        snd (balanceReview ex_reviewer_nocomment ex_pr ex_world))"
proof -
  have rec: "reconcileIfDue ex_reviewer_nocomment ex_world = (Inr ex_reviewer_nocomment, ex_world)"
    by (simp add: reconcileIfDue_def ex_reviewer_nocomment_def ex_reviewer_def NewAutoReviewer_def
          ex_repo_def ex_clients_def DefaultReconcilePeriod_def)
  have prs: "GetPullRequests (clients ex_reviewer_nocomment) (ext ex_world)
               (AdoRepoID (Repo ex_reviewer_nocomment)) (ProjectName (Repo ex_reviewer_nocomment))
             = Inr ([] @ ex_pr # [ex_pr2])"
    by (simp add: ex_reviewer_nocomment_def ex_clients_def)
  have before: "Run_loop ex_reviewer_nocomment [] ex_world = (Done, ex_world)" by simp
  have nf: "\<not> shouldFilter ex_reviewer_nocomment ex_pr" by code_simp
  have "fst (balanceReview ex_reviewer_nocomment ex_pr ex_world)
          = Failed (Wrapped ''failed to add reviewer comment''
                     (Wrapped ''failed to add reviewer comment'' (ErrExternal ''forbidden'')))"
    by code_simp
  then have fail: "balanceReview ex_reviewer_nocomment ex_pr ex_world
          = (Failed (Wrapped ''failed to add reviewer comment''
                     (Wrapped ''failed to add reviewer comment'' (ErrExternal ''forbidden''))),
             snd (balanceReview ex_reviewer_nocomment ex_pr ex_world))"
    by (simp add: prod_eq_iff)
  have cyc: "Manager_Run_loop [] ex_world = (Done, ex_world)" by simp
  from error_stops_repository_and_cycle[OF cyc rec prs before nf fail, of "[ex_reviewer]"]
  show ?thesis by simp
qed

end
